theory Spec2Isabelle
  imports Main "HOL-Library.Word"
begin

unbundle bit_operations_syntax

section \<open>Data model of controller.ino\<close>

text \<open>
  The firmware runs on an ATmega328 (avr-gcc): \<open>uint8_t\<close>, \<open>uint16_t\<close> and
  \<open>uint32_t\<close> are 8, 16 and 32 bit words, \<open>int\<close> has 16 bits, structs are packed
  without padding and multi-byte values are stored little-endian.
\<close>

type_synonym uint8_t = "8 word"
type_synonym uint16_t = "16 word"
type_synonym uint32_t = "32 word"

text \<open>\<open>settings_t\<close>: the struct that is saved to EEPROM.\<close>

record settings_t =
  testPatternEnable :: uint8_t
  standard :: uint8_t
  frequencyTimes100 :: uint32_t

text \<open>
  The external collaborators (LCD, I2C bus, delay) are modelled by the trace of the
  calls the firmware makes on them.  An array read with an index outside the array
  has no defined value in C; such a read is \<open>None\<close>.
\<close>

datatype io =
    LcdSetCursor "uint8_t option" uint8_t
  | LcdWrite "uint8_t option"
  | LcdPrint string
  | Delay nat
  | WireBeginTransmission uint8_t
  | WireWrite uint8_t
  | WireEndTransmission

text \<open>
  The global variables of the sketch, the EEPROM contents (byte addressed) and the
  trace of calls.  The global \<open>function\<close> is named \<open>function'\<close> here.
\<close>

record firmware =
  currentSettings :: settings_t
  frequencyDivisor :: uint8_t
  function' :: uint8_t
  eeprom :: "nat \<Rightarrow> uint8_t"
  trace :: "io list"

definition EEPROM_HEADER :: uint16_t where
  "EEPROM_HEADER = 0x4E45"

definition CURRENTSETTINGS_ADDRESS :: nat where
  "CURRENTSETTINGS_ADDRESS = 0"

definition fnIdle :: uint8_t where "fnIdle = 0"
definition fnChannel :: uint8_t where "fnChannel = 1"
definition fnStandard :: uint8_t where "fnStandard = 2"
definition fnTestPattern :: uint8_t where "fnTestPattern = 3"

text \<open>\<open>standards[] = {'M','B','I','D'}\<close> and \<open>fnCursorPositions[] = {16,2,14,15}\<close>.\<close>

definition standards :: "uint8_t list" where
  "standards = [0x4D, 0x42, 0x49, 0x44]"

definition fnCursorPositions :: "uint8_t list" where
  "fnCursorPositions = [16, 2, 14, 15]"

definition array_read :: "uint8_t list \<Rightarrow> uint8_t \<Rightarrow> uint8_t option" where
  "array_read xs i = (if unat i < length xs then Some (xs ! unat i) else None)"

definition frequencyIncrementH :: uint32_t where "frequencyIncrementH = 900"
definition frequencyIncrementM :: uint32_t where "frequencyIncrementM = 800"
definition frequencyIncrementL :: uint32_t where "frequencyIncrementL = 700"

text \<open>The initialiser of \<open>currentSettings\<close>: test pattern on, standard I, 471.25 MHz.\<close>

definition default_settings :: settings_t where
  "default_settings =
     \<lparr>testPatternEnable = 1, standard = 2, frequencyTimes100 = 47125\<rparr>"

text \<open>The globals after reset, for a given EEPROM content.\<close>

definition power_on :: "(nat \<Rightarrow> uint8_t) \<Rightarrow> firmware" where
  "power_on e =
     \<lparr>currentSettings = default_settings, frequencyDivisor = 0, function' = fnIdle,
      eeprom = e, trace = []\<rparr>"

definition emit :: "io list \<Rightarrow> firmware \<Rightarrow> firmware" where
  "emit evs s = s\<lparr>trace := trace s @ evs\<rparr>"

section \<open>Frequency stepping\<close>

text \<open>\<open>setFrequencyDivider\<close>: select the PLL divider according to the frequency.\<close>

definition setFrequencyDivider :: "firmware \<Rightarrow> firmware" where
  "setFrequencyDivider s =
     (let f = frequencyTimes100 (currentSettings s) in
      if f > 42325 then s\<lparr>frequencyDivisor := 0\<rparr>
      else if f > 21025 then s\<lparr>frequencyDivisor := 1\<rparr>
      else if f > 10525 then s\<lparr>frequencyDivisor := 2\<rparr>
      else if f \<ge> 4125 then s\<lparr>frequencyDivisor := 3\<rparr>
      else s\<lparr>frequencyDivisor := 4\<rparr>)"

definition set_frequency :: "uint32_t \<Rightarrow> firmware \<Rightarrow> firmware" where
  "set_frequency f s = s\<lparr>currentSettings := (currentSettings s)\<lparr>frequencyTimes100 := f\<rparr>\<rparr>"

text \<open>\<open>incrementFrequency\<close>: one channel space up.\<close>

definition incrementFrequency :: "firmware \<Rightarrow> firmware" where
  "incrementFrequency s =
     (let f = frequencyTimes100 (currentSettings s) in
      setFrequencyDivider
        (if f < 102325 \<and> f \<ge> 30325 then set_frequency (f + frequencyIncrementM) s
         else if f < 102325 \<and> f \<ge> 29425 then set_frequency (f + frequencyIncrementH) s
         else if f < 102325 \<and> f \<ge> 10525 then set_frequency (f + frequencyIncrementL) s
         else if f < 102325 \<and> f \<ge> 9725 then set_frequency (f + frequencyIncrementM) s
         else if f < 102325 then set_frequency (f + frequencyIncrementL) s
         else set_frequency 4125 s))"

text \<open>\<open>decrementFrequency\<close>: one channel space down.\<close>

definition decrementFrequency :: "firmware \<Rightarrow> firmware" where
  "decrementFrequency s =
     (let f = frequencyTimes100 (currentSettings s) in
      setFrequencyDivider
        (if f > 30325 then set_frequency (f - frequencyIncrementM) s
         else if f > 29425 then set_frequency (f - frequencyIncrementH) s
         else if f > 10525 then set_frequency (f - frequencyIncrementL) s
         else if f > 9725 then set_frequency (f - frequencyIncrementM) s
         else if f > 4125 then set_frequency (f - frequencyIncrementL) s
         else set_frequency 102325 s))"

section \<open>Rendering the configuration: \<open>writeConfig\<close>\<close>

text \<open>
  The macro \<open>frequencyDivisorPow\<close> is \<open>(1 << frequencyDivisor)\<close>, a shift of the 16 bit
  \<open>int\<close> 1.  The firmware only ever stores 0..4 in \<open>frequencyDivisor\<close>; a shift by 15
  or more is undefined in C and is not claimed to be modelled.
\<close>

definition frequencyDivisorPow :: "firmware \<Rightarrow> 16 word" where
  "frequencyDivisorPow s = push_bit (unat (frequencyDivisor s)) 1"

text \<open>
  \<open>uint16_t frequencyBits = (uint32_t(frequencyDivisorPow) * frequencyTimes100) / uint32_t(25)\<close>:
  the \<open>int\<close> is sign-extended to 32 bits, the product wraps at 32 bits and the
  quotient is cut to 16 bits.
\<close>

definition frequencyBits :: "firmware \<Rightarrow> uint32_t \<Rightarrow> uint16_t" where
  "frequencyBits s f = ucast ((scast (frequencyDivisorPow s) * f) div 25)"

text \<open>The channel label: \<open>channelDig3\<close> is the band letter (\<open>'C'\<close> = 0x43, \<open>'S'\<close> = 0x53,
  \<open>'-'\<close> = 0x2D), \<open>channelNumber\<close> an 8 bit number, 0 when there is none.\<close>

definition channelDig3 :: "uint32_t \<Rightarrow> uint8_t" where
  "channelDig3 f =
     (if f \<ge> 47125 then 0x43
      else if f < 47125 \<and> f \<ge> 30325 then 0x53
      else if f < 47125 \<and> f \<ge> 23125 then 0x53
      else if f < 23125 \<and> f \<ge> 17525 then 0x43
      else if f < 17525 \<and> f \<ge> 10525 then 0x53
      else if f < 6925 \<and> f \<ge> 4025 then 0x43
      else 0x2D)"

definition channelNumber :: "uint32_t \<Rightarrow> uint8_t" where
  "channelNumber f =
     (if f \<ge> 47125 then ucast ((f - 47125) div 800 + 21)
      else if f < 47125 \<and> f \<ge> 30325 then ucast ((f - 30325) div 800 + 21)
      else if f < 47125 \<and> f \<ge> 23125 then ucast ((f - 23125) div 700 + 11)
      else if f < 23125 \<and> f \<ge> 17525 then ucast ((f - 17525) div 700 + 5)
      else if f < 17525 \<and> f \<ge> 10525 then ucast ((f - 10525) div 700 + 1)
      else if f < 6925 \<and> f \<ge> 4025 then ucast ((f - 4025) div 700 + 1)
      else 0)"

definition channelDig2 :: "uint32_t \<Rightarrow> uint8_t" where
  "channelDig2 f = (if channelNumber f \<noteq> 0 then channelNumber f div 10 + 48 else 0x2D)"

definition channelDig1 :: "uint32_t \<Rightarrow> uint8_t" where
  "channelDig1 f = (if channelNumber f \<noteq> 0 then channelNumber f mod 10 + 48 else 0x2D)"

text \<open>The sixteen characters written to the LCD, from column 0.\<close>

definition lcd_text :: "firmware \<Rightarrow> uint8_t \<Rightarrow> uint8_t \<Rightarrow> uint32_t \<Rightarrow> uint8_t option list" where
  "lcd_text s SFD TPEN f =
     (let dig6 = (ucast (f div 100000) :: uint8_t);
          dig5 = (ucast (f div 10000 mod 10) :: uint8_t) in
      [Some (channelDig3 f), Some (channelDig2 f), Some (channelDig1 f), Some 0x20,
       Some (if dig6 \<noteq> 0 then dig6 + 48 else 0x20),
       Some (if dig6 \<noteq> 0 \<or> dig5 \<noteq> 0 then dig5 + 48 else 0x20),
       Some (ucast (f div 1000 mod 10 + 48)),
       Some (ucast (f div 100 mod 10 + 48)),
       Some 0x2E,
       Some (ucast (f div 10 mod 10 + 48)),
       Some (ucast (f mod 10 + 48)),
       Some 0x20,
       Some (ucast (frequencyDivisorPow s + 48)),
       Some 0x20,
       array_read standards SFD,
       Some (if TPEN \<noteq> 0 then 0x54 else 0x20)])"

text \<open>The raw configuration bytes.\<close>

definition reg_C1 :: "uint8_t \<Rightarrow> uint8_t \<Rightarrow> uint8_t \<Rightarrow> uint8_t \<Rightarrow> uint8_t \<Rightarrow> uint8_t" where
  "reg_C1 SO LOP PS X SYSL =
     0x80 OR push_bit 5 (SO AND 1) OR push_bit 4 (LOP AND 1) OR push_bit 3 (PS AND 1)
       OR drop_bit 1 (X AND 0xC) OR (SYSL AND 1)"

definition reg_C0 :: "uint8_t \<Rightarrow> uint8_t \<Rightarrow> uint8_t \<Rightarrow> uint8_t \<Rightarrow> uint8_t \<Rightarrow> uint8_t \<Rightarrow> uint8_t" where
  "reg_C0 PWC OSC ATT SFD SREF X =
     push_bit 7 (PWC AND 1) OR push_bit 6 (OSC AND 1) OR push_bit 5 (ATT AND 1)
       OR push_bit 3 (SFD AND 3) OR push_bit 2 (SREF AND 1) OR drop_bit 4 (X AND 0x30)"

definition reg_FM :: "uint8_t \<Rightarrow> uint16_t \<Rightarrow> uint8_t" where
  "reg_FM TPEN fb = push_bit 6 (TPEN AND 1) OR ucast (0x3F AND drop_bit 6 fb)"

definition reg_FL :: "uint16_t \<Rightarrow> uint8_t \<Rightarrow> uint8_t" where
  "reg_FL fb X = ucast (push_bit 2 (fb AND 0x3F) OR ucast (X AND 3))"

text \<open>\<open>writeConfigRaw\<close>: one I2C transmission to address \<open>0xCA >> 1\<close>.\<close>

definition writeConfigRaw :: "uint8_t \<Rightarrow> uint8_t \<Rightarrow> uint8_t \<Rightarrow> uint8_t \<Rightarrow> firmware \<Rightarrow> firmware" where
  "writeConfigRaw C1 C0 FM FL s =
     emit [WireBeginTransmission (drop_bit 1 0xCA), WireWrite C1, WireWrite C0,
           WireWrite FM, WireWrite FL, WireEndTransmission] s"

text \<open>The twelve-parameter \<open>writeConfig\<close>: LCD output, then the register write.\<close>

definition writeConfig_params ::
  "uint8_t \<Rightarrow> uint8_t \<Rightarrow> uint8_t \<Rightarrow> uint8_t \<Rightarrow> uint8_t \<Rightarrow> uint8_t \<Rightarrow> uint8_t \<Rightarrow> uint8_t \<Rightarrow>
   uint8_t \<Rightarrow> uint8_t \<Rightarrow> uint8_t \<Rightarrow> uint32_t \<Rightarrow> firmware \<Rightarrow> firmware" where
  "writeConfig_params SO LOP PS X SYSL PWC OSC ATT SFD SREF TPEN f s =
     (let fb = frequencyBits s f;
          s1 = emit (LcdSetCursor (Some 0) 0 # map LcdWrite (lcd_text s SFD TPEN f)
                     @ [LcdSetCursor (array_read fnCursorPositions (function' s)) 0]) s
      in writeConfigRaw (reg_C1 SO LOP PS X SYSL) (reg_C0 PWC OSC ATT SFD SREF X)
           (reg_FM TPEN fb) (reg_FL fb X) s1)"

text \<open>The parameterless \<open>writeConfig\<close>: all reserved bits 0, the rest from the globals.\<close>

definition writeConfig :: "firmware \<Rightarrow> firmware" where
  "writeConfig s =
     writeConfig_params 0 0 0 (frequencyDivisor s) 0 0 0 0 (standard (currentSettings s)) 0
       (testPatternEnable (currentSettings s)) (frequencyTimes100 (currentSettings s)) s"

section \<open>Persisting the settings: \<open>currentSettings_save\<close>, \<open>currentSettings_load\<close>\<close>

text \<open>
  The avr-libc EEPROM routines, on the byte-addressed store: a word is two bytes, low
  byte first; a block is copied byte by byte.
\<close>

definition eeprom_write_word :: "nat \<Rightarrow> uint16_t \<Rightarrow> firmware \<Rightarrow> firmware" where
  "eeprom_write_word a w s =
     s\<lparr>eeprom := (eeprom s)(a := ucast w, Suc a := ucast (drop_bit 8 w))\<rparr>"

definition eeprom_read_word :: "nat \<Rightarrow> firmware \<Rightarrow> uint16_t" where
  "eeprom_read_word a s = ucast (eeprom s a) OR push_bit 8 (ucast (eeprom s (Suc a)))"

fun eeprom_write_block :: "uint8_t list \<Rightarrow> nat \<Rightarrow> firmware \<Rightarrow> firmware" where
  "eeprom_write_block [] a s = s"
| "eeprom_write_block (b # bs) a s =
     eeprom_write_block bs (Suc a) (s\<lparr>eeprom := (eeprom s)(a := b)\<rparr>)"

definition eeprom_read_block :: "nat \<Rightarrow> nat \<Rightarrow> firmware \<Rightarrow> uint8_t list" where
  "eeprom_read_block a n s = map (eeprom s) [a..<a + n]"

text \<open>
  The byte image of a \<open>settings_t\<close> (what \<open>(byte*)&currentSettings\<close> points to) and
  the struct that a byte image denotes; \<open>sizeof(currentSettings)\<close> is 6 and
  \<open>sizeof(EEPROM_HEADER)\<close> is 2.
\<close>

definition settings_bytes :: "settings_t \<Rightarrow> uint8_t list" where
  "settings_bytes c =
     (let f = frequencyTimes100 c in
      [testPatternEnable c, standard c,
       ucast f, ucast (drop_bit 8 f), ucast (drop_bit 16 f), ucast (drop_bit 24 f)])"

definition settings_of_bytes :: "uint8_t list \<Rightarrow> settings_t" where
  "settings_of_bytes bs =
     \<lparr>testPatternEnable = bs ! 0, standard = bs ! 1,
      frequencyTimes100 =
        ucast (bs ! 2) OR push_bit 8 (ucast (bs ! 3)) OR push_bit 16 (ucast (bs ! 4))
          OR push_bit 24 (ucast (bs ! 5))\<rparr>"

definition sizeof_settings :: nat where
  "sizeof_settings = 6"

definition sizeof_header :: nat where
  "sizeof_header = 2"

text \<open>The checksum loop: \<open>checksum += p[i]\<close> over the bytes of the struct, in 16 bits.\<close>

fun checksum_loop :: "uint8_t list \<Rightarrow> uint16_t \<Rightarrow> uint16_t" where
  "checksum_loop [] checksum = checksum"
| "checksum_loop (b # bs) checksum = checksum_loop bs (checksum + ucast b)"

text \<open>\<open>currentSettings_save\<close>: header, struct, checksum; returns \<open>sizeof(currentSettings)\<close>.\<close>

definition currentSettings_save :: "firmware \<Rightarrow> uint16_t \<times> firmware" where
  "currentSettings_save s =
     (let p = settings_bytes (currentSettings s);
          checksum = checksum_loop p 0;
          s1 = eeprom_write_word CURRENTSETTINGS_ADDRESS EEPROM_HEADER s;
          s2 = eeprom_write_block p (CURRENTSETTINGS_ADDRESS + sizeof_header) s1;
          s3 = eeprom_write_word (CURRENTSETTINGS_ADDRESS + sizeof_header + sizeof_settings)
                 checksum s2
      in (of_nat sizeof_settings, s3))"

text \<open>
  \<open>currentSettings_load\<close>: the pair is the value of the local \<open>retval\<close> (0 accepted,
  1 rejected) and the globals afterwards.  The source computes \<open>retval\<close> but has no
  return statement, and its only caller ignores the result.
\<close>

definition currentSettings_load :: "firmware \<Rightarrow> uint8_t \<times> firmware" where
  "currentSettings_load s =
     (let eepromHeaderTemp = eeprom_read_word CURRENTSETTINGS_ADDRESS s;
          p = eeprom_read_block (CURRENTSETTINGS_ADDRESS + sizeof_header) sizeof_settings s;
          checksum = eeprom_read_word
                       (CURRENTSETTINGS_ADDRESS + sizeof_header + sizeof_settings) s;
          checksumCalc = checksum_loop p 0
      in if checksum = checksumCalc \<and> eepromHeaderTemp = EEPROM_HEADER
         then (0, s\<lparr>currentSettings := settings_of_bytes p\<rparr>)
         else (1, s))"

section \<open>Button events\<close>

text \<open>The event types of the AceButton library and the three button pins
  (\<open>A0\<close> = 14, \<open>A1\<close> = 15, \<open>A2\<close> = 16 on the ATmega328).\<close>

datatype eventType =
    kEventPressed | kEventReleased | kEventClicked | kEventDoubleClicked
  | kEventLongPressed | kEventRepeatPressed | kEventLongReleased

definition buttonFPin :: uint8_t where "buttonFPin = 14"
definition buttonUPin :: uint8_t where "buttonUPin = 16"
definition buttonDPin :: uint8_t where "buttonDPin = 15"

definition set_function :: "uint8_t \<Rightarrow> firmware \<Rightarrow> firmware" where
  "set_function v s = s\<lparr>function' := v\<rparr>"

definition lcd_setCursor_function :: "firmware \<Rightarrow> firmware" where
  "lcd_setCursor_function s =
     emit [LcdSetCursor (array_read fnCursorPositions (function' s)) 0] s"

text \<open>\<open>handleFEvent\<close>: the event handler of the function (mode) button.\<close>

fun handleFEvent :: "eventType \<Rightarrow> firmware \<Rightarrow> firmware" where
  "handleFEvent kEventReleased s =
     lcd_setCursor_function
       (if function' s = fnChannel then set_function fnStandard s
        else if function' s = fnStandard then set_function fnTestPattern s
        else set_function fnChannel s)"
| "handleFEvent kEventLongPressed s =
     lcd_setCursor_function
       (if function' s = fnIdle then set_function fnChannel s
        else writeConfig
               (emit [LcdSetCursor (Some 0) 0, LcdPrint ''Config saved.   '', Delay 1000]
                  (snd (currentSettings_save (set_function fnIdle s)))))"
| "handleFEvent _ s = s"

definition set_standard :: "uint8_t \<Rightarrow> firmware \<Rightarrow> firmware" where
  "set_standard v s = s\<lparr>currentSettings := (currentSettings s)\<lparr>standard := v\<rparr>\<rparr>"

definition set_testPatternEnable :: "uint8_t \<Rightarrow> firmware \<Rightarrow> firmware" where
  "set_testPatternEnable v s =
     s\<lparr>currentSettings := (currentSettings s)\<lparr>testPatternEnable := v\<rparr>\<rparr>"

text \<open>\<open>handleUDEvent\<close>: the event handler of the up and down buttons; the first
  argument is \<open>button->getPin()\<close>.\<close>

definition handleUDEvent :: "uint8_t \<Rightarrow> eventType \<Rightarrow> firmware \<Rightarrow> firmware" where
  "handleUDEvent pin ev s =
     (if ev = kEventPressed \<or> ev = kEventRepeatPressed then
        (if pin = buttonUPin then
           (if function' s = fnChannel then writeConfig (incrementFrequency s)
            else if function' s = fnStandard then
              writeConfig (set_standard ((standard (currentSettings s) + 1) AND 3) s)
            else if function' s = fnTestPattern then
              writeConfig
                (set_testPatternEnable (testPatternEnable (currentSettings s) XOR 1) s)
            else s)
         else if pin = buttonDPin then
           (if function' s = fnChannel then writeConfig (decrementFrequency s)
            else if function' s = fnStandard then
              writeConfig (set_standard ((standard (currentSettings s) - 1) AND 3) s)
            else if function' s = fnTestPattern then
              writeConfig
                (set_testPatternEnable (testPatternEnable (currentSettings s) XOR 1) s)
            else s)
         else s)
      else s)"

text \<open>
  The sketch's start-up routine, from the globals after reset: the flag is \<open>!digitalRead(buttonFPin)\<close>, the
  function button held at power-on.  The configuration calls of the button, LCD and
  Wire libraries carry no data of the sketch and are left out of the trace.
\<close>

definition sketch_setup :: "bool \<Rightarrow> firmware \<Rightarrow> firmware" where
  "sketch_setup held s =
     writeConfig
       (if held then emit [LcdSetCursor (Some 0) 0, LcdPrint ''Config not read.'', Delay 1000] s
        else snd (currentSettings_load s))"

section \<open>Sequences of frequency steps\<close>

datatype step = Up | Down

fun stepping :: "step list \<Rightarrow> firmware \<Rightarrow> firmware" where
  "stepping [] s = s"
| "stepping (Up # xs) s = stepping xs (incrementFrequency s)"
| "stepping (Down # xs) s = stepping xs (decrementFrequency s)"

text \<open>An erased EEPROM reads 0xFF everywhere.\<close>

definition erased_eeprom :: "nat \<Rightarrow> uint8_t" where
  "erased_eeprom a = 0xFF"

text \<open>The frequency held in the globals.\<close>

definition frequency :: "firmware \<Rightarrow> uint32_t" where
  "frequency s = frequencyTimes100 (currentSettings s)"

section \<open>The tables and formulas of the specification\<close>

text \<open>The divisor-band table of the specification, on the frequency in 1/100 MHz.\<close>

definition spec_divisorExponent :: "nat \<Rightarrow> nat" where
  "spec_divisorExponent f =
     (if f > 42325 then 0 else if f > 21025 then 1 else if f > 10525 then 2
      else if f \<ge> 4125 then 3 else 4)"

text \<open>The channel-label table of the specification: band tag and channel number.\<close>

definition spec_channelLabel :: "nat \<Rightarrow> char \<times> nat option" where
  "spec_channelLabel f =
     (if f \<ge> 47125 then (CHR ''C'', Some ((f - 47125) div 800 + 21))
      else if 30325 \<le> f \<and> f < 47125 then (CHR ''S'', Some ((f - 30325) div 800 + 21))
      else if 23125 \<le> f \<and> f < 30325 then (CHR ''S'', Some ((f - 23125) div 700 + 11))
      else if 17525 \<le> f \<and> f < 23125 then (CHR ''C'', Some ((f - 17525) div 700 + 5))
      else if 10525 \<le> f \<and> f < 17525 then (CHR ''S'', Some ((f - 10525) div 700 + 1))
      else if 4025 \<le> f \<and> f < 6925 then (CHR ''C'', Some ((f - 4025) div 700 + 1))
      else (CHR ''-'', None))"

text \<open>The register frame as the specification writes it, on bytes.\<close>

definition spec_C1 :: "uint8_t \<Rightarrow> uint8_t \<Rightarrow> uint8_t \<Rightarrow> uint8_t \<Rightarrow> uint8_t" where
  "spec_C1 LOP PS divisorExponent SYSL =
     0x80 OR push_bit 4 LOP OR push_bit 3 PS OR drop_bit 1 (divisorExponent AND 0xC) OR SYSL"

definition spec_C0 ::
  "uint8_t \<Rightarrow> uint8_t \<Rightarrow> uint8_t \<Rightarrow> uint8_t \<Rightarrow> uint8_t \<Rightarrow> uint8_t \<Rightarrow> uint8_t" where
  "spec_C0 PWC OSC ATT std SREF divisorExponent =
     push_bit 7 PWC OR push_bit 6 OSC OR push_bit 5 ATT OR push_bit 3 (std AND 3)
       OR push_bit 2 SREF OR drop_bit 4 (divisorExponent AND 0x30)"

definition spec_FM :: "uint8_t \<Rightarrow> uint16_t \<Rightarrow> uint8_t" where
  "spec_FM tpe registerFrequencyBits =
     push_bit 6 tpe OR ucast (drop_bit 6 registerFrequencyBits AND 0x3F)"

definition spec_FL :: "uint16_t \<Rightarrow> uint8_t \<Rightarrow> uint8_t" where
  "spec_FL registerFrequencyBits divisorExponent =
     push_bit 2 (ucast (registerFrequencyBits AND 0x3F)) OR (divisorExponent AND 3)"

text \<open>The calls on the I2C bus in a trace.\<close>

fun is_wire :: "io \<Rightarrow> bool" where
  "is_wire (WireBeginTransmission a) = True"
| "is_wire (WireWrite b) = True"
| "is_wire WireEndTransmission = True"
| "is_wire _ = False"

definition wire_calls :: "firmware \<Rightarrow> io list" where
  "wire_calls s = filter is_wire (trace s)"

text \<open>
  The EEPROM that the firmware itself leaves after seventy increments from the default
  (which reach 41.25 MHz) and a save.
\<close>

definition saved_4125_eeprom :: "nat \<Rightarrow> uint8_t" where
  "saved_4125_eeprom =
     eeprom (snd (currentSettings_save (stepping (replicate 70 Up) (power_on erased_eeprom))))"

section \<open>The channel grid\<close>

text \<open>
  The frequencies on the channel grid: 41.25 MHz to 97.25 MHz and 105.25 MHz to
  294.25 MHz in steps of 7 MHz, 303.25 MHz to 1023.25 MHz in steps of 8 MHz.  The
  second predicate says that \<open>frequencyDivisor\<close> holds the divisor that
  \<open>setFrequencyDivider\<close> selects for the current frequency.
\<close>

definition on_grid :: "nat \<Rightarrow> bool" where
  "on_grid n =
     ((\<exists>k\<le>8. n = 4125 + 700 * k) \<or> (\<exists>k\<le>27. n = 10525 + 700 * k)
      \<or> (\<exists>k\<le>90. n = 30325 + 800 * k))"

definition divisor_derived :: "firmware \<Rightarrow> bool" where
  "divisor_derived s = (unat (frequencyDivisor s) = spec_divisorExponent (unat (frequency s)))"

section \<open>Basic facts\<close>

lemma frequency_power_on: "frequency (power_on e) = 47125"
  by (simp add: frequency_def power_on_def default_settings_def)

lemma frequency_set_frequency: "frequency (set_frequency f s) = f"
  by (simp add: frequency_def set_frequency_def)

lemma frequency_setFrequencyDivider: "frequency (setFrequencyDivider s) = frequency s"
  by (simp add: frequency_def setFrequencyDivider_def Let_def)

lemma unat_frequency_incrementFrequency:
  "unat (frequency (incrementFrequency s)) =
     (let n = unat (frequency s) in
      if n < 102325 \<and> n \<ge> 30325 then n + 800
      else if n < 102325 \<and> n \<ge> 29425 then n + 900
      else if n < 102325 \<and> n \<ge> 10525 then n + 700
      else if n < 102325 \<and> n \<ge> 9725 then n + 800
      else if n < 102325 then n + 700
      else 4125)"
proof -
  have add: "unat (f + k) = unat f + unat k" if "unat f < 102325" "unat k \<le> 900" for f k :: uint32_t
    using that by (simp add: unat_add_lem [THEN iffD1])
  show ?thesis
    unfolding incrementFrequency_def Let_def frequency_setFrequencyDivider
    by (simp add: frequency_set_frequency frequency_def [symmetric] word_less_nat_alt word_le_nat_alt add
        frequencyIncrementH_def frequencyIncrementM_def frequencyIncrementL_def)
qed

lemma unat_frequency_decrementFrequency:
  "unat (frequency (decrementFrequency s)) =
     (let n = unat (frequency s) in
      if n > 30325 then n - 800
      else if n > 29425 then n - 900
      else if n > 10525 then n - 700
      else if n > 9725 then n - 800
      else if n > 4125 then n - 700
      else 102325)"
proof -
  have sub: "unat (f - k) = unat f - unat k" if "unat k \<le> unat f" for f k :: uint32_t
    using that by (simp add: unat_sub word_le_nat_alt)
  show ?thesis
    unfolding decrementFrequency_def Let_def frequency_setFrequencyDivider
    by (simp add: frequency_set_frequency frequency_def [symmetric] word_less_nat_alt word_le_nat_alt sub
        frequencyIncrementH_def frequencyIncrementM_def frequencyIncrementL_def)
qed

lemma unat_frequencyDivisor_setFrequencyDivider:
  "unat (frequencyDivisor (setFrequencyDivider s)) = spec_divisorExponent (unat (frequency s))"
  by (simp add: setFrequencyDivider_def spec_divisorExponent_def Let_def frequency_def
      word_less_nat_alt word_le_nat_alt)

section \<open>The grid is closed under stepping\<close>

lemma on_gridE:
  assumes "on_grid n"
  obtains (low) k where "k \<le> 8" "n = 4125 + 700 * k"
  | (mid) k where "k \<le> 27" "n = 10525 + 700 * k"
  | (high) k where "k \<le> 90" "n = 30325 + 800 * k"
  using assms unfolding on_grid_def by blast

lemma on_grid_low: "k \<le> 8 \<Longrightarrow> on_grid (4125 + 700 * k)"
  and on_grid_mid: "k \<le> 27 \<Longrightarrow> on_grid (10525 + 700 * k)"
  and on_grid_high: "k \<le> 90 \<Longrightarrow> on_grid (30325 + 800 * k)"
  unfolding on_grid_def by blast+

lemma on_grid_incrementFrequency:
  assumes "on_grid (unat (frequency s))"
  shows "on_grid (unat (frequency (incrementFrequency s)))"
  using assms
proof (cases rule: on_gridE)
  case (low k)
  show ?thesis
  proof (cases "k = 8")
    case True
    with low on_grid_mid [of 0] show ?thesis
      by (simp add: unat_frequency_incrementFrequency)
  next
    case False
    with low on_grid_low [of "Suc k"] show ?thesis
      by (simp add: unat_frequency_incrementFrequency)
  qed
next
  case (mid k)
  show ?thesis
  proof (cases "k = 27")
    case True
    with mid on_grid_high [of 0] show ?thesis
      by (simp add: unat_frequency_incrementFrequency)
  next
    case False
    with mid on_grid_mid [of "Suc k"] show ?thesis
      by (simp add: unat_frequency_incrementFrequency)
  qed
next
  case (high k)
  show ?thesis
  proof (cases "k = 90")
    case True
    with high on_grid_low [of 0] show ?thesis
      by (simp add: unat_frequency_incrementFrequency)
  next
    case False
    with high on_grid_high [of "Suc k"] show ?thesis
      by (simp add: unat_frequency_incrementFrequency)
  qed
qed

lemma on_grid_decrementFrequency:
  assumes "on_grid (unat (frequency s))"
  shows "on_grid (unat (frequency (decrementFrequency s)))"
  using assms
proof (cases rule: on_gridE)
  case (low k)
  show ?thesis
  proof (cases "k = 0")
    case True
    with low on_grid_high [of 90] show ?thesis
      by (simp add: unat_frequency_decrementFrequency)
  next
    case False
    with low on_grid_low [of "k - 1"] show ?thesis
      by (simp add: unat_frequency_decrementFrequency algebra_simps)
  qed
next
  case (mid k)
  show ?thesis
  proof (cases "k = 0")
    case True
    with mid on_grid_low [of 8] show ?thesis
      by (simp add: unat_frequency_decrementFrequency)
  next
    case False
    with mid on_grid_mid [of "k - 1"] show ?thesis
      by (simp add: unat_frequency_decrementFrequency algebra_simps)
  qed
next
  case (high k)
  show ?thesis
  proof (cases "k = 0")
    case True
    with high on_grid_mid [of 27] show ?thesis
      by (simp add: unat_frequency_decrementFrequency)
  next
    case False
    with high on_grid_high [of "k - 1"] show ?thesis
      by (simp add: unat_frequency_decrementFrequency algebra_simps)
  qed
qed

lemma divisor_derived_setFrequencyDivider: "divisor_derived (setFrequencyDivider s)"
  by (simp add: divisor_derived_def unat_frequencyDivisor_setFrequencyDivider
      frequency_setFrequencyDivider)

lemma divisor_derived_incrementFrequency: "divisor_derived (incrementFrequency s)"
  unfolding incrementFrequency_def Let_def by (rule divisor_derived_setFrequencyDivider)

lemma divisor_derived_decrementFrequency: "divisor_derived (decrementFrequency s)"
  unfolding decrementFrequency_def Let_def by (rule divisor_derived_setFrequencyDivider)

lemma stepping_invariant:
  "on_grid (unat (frequency s)) \<Longrightarrow> divisor_derived s \<Longrightarrow>
   on_grid (unat (frequency (stepping xs s))) \<and> divisor_derived (stepping xs s)"
proof (induction xs arbitrary: s)
  case Nil
  then show ?case by simp
next
  case (Cons x xs)
  show ?case
  proof (cases x)
    case Up
    with Cons.IH [of "incrementFrequency s"] Cons.prems show ?thesis
      by (simp add: on_grid_incrementFrequency divisor_derived_incrementFrequency)
  next
    case Down
    with Cons.IH [of "decrementFrequency s"] Cons.prems show ?thesis
      by (simp add: on_grid_decrementFrequency divisor_derived_decrementFrequency)
  qed
qed

lemma on_grid_power_on: "on_grid (unat (frequency (power_on e)))"
  using on_grid_high [of 21] by (simp add: frequency_power_on)

lemma divisor_derived_power_on: "divisor_derived (power_on e)"
proof -
  have "frequencyDivisor (power_on e) = 0" by (simp add: power_on_def)
  then show ?thesis
    by (simp add: divisor_derived_def frequency_power_on spec_divisorExponent_def)
qed

lemma on_grid_reachable: "on_grid (unat (frequency (stepping xs (power_on e))))"
  using stepping_invariant [OF on_grid_power_on divisor_derived_power_on] by simp

lemma divisor_derived_reachable: "divisor_derived (stepping xs (power_on e))"
  using stepping_invariant [OF on_grid_power_on divisor_derived_power_on] by simp

lemma roundtrip_on_grid:
  assumes "on_grid (unat (frequency s))"
  shows "unat (frequency (decrementFrequency (incrementFrequency s))) = unat (frequency s)"
  using assms
proof (cases rule: on_gridE)
  case (low k)
  then show ?thesis
    by (cases "k = 8")
      (simp_all add: unat_frequency_decrementFrequency unat_frequency_incrementFrequency)
next
  case (mid k)
  then show ?thesis
    by (cases "k = 27")
      (simp_all add: unat_frequency_decrementFrequency unat_frequency_incrementFrequency)
next
  case (high k)
  then show ?thesis
    by (cases "k = 90")
      (simp_all add: unat_frequency_decrementFrequency unat_frequency_incrementFrequency)
qed

lemma roundtrip_back_on_grid:
  assumes "on_grid (unat (frequency s))"
  shows "unat (frequency (incrementFrequency (decrementFrequency s))) = unat (frequency s)"
  using assms
proof (cases rule: on_gridE)
  case (low k)
  then show ?thesis
    by (cases "k = 0")
      (simp_all add: unat_frequency_decrementFrequency unat_frequency_incrementFrequency)
next
  case (mid k)
  then show ?thesis
    by (cases "k = 0")
      (simp_all add: unat_frequency_decrementFrequency unat_frequency_incrementFrequency)
next
  case (high k)
  then show ?thesis
    by (cases "k = 0")
      (simp_all add: unat_frequency_decrementFrequency unat_frequency_incrementFrequency)
qed


section \<open>The channel label\<close>

lemma channelDig3_table: "channelDig3 f = of_char (fst (spec_channelLabel (unat f)))"
  by (simp add: channelDig3_def spec_channelLabel_def word_le_nat_alt word_less_nat_alt)

lemma unat_channel_formula:
  fixes f c :: uint32_t
  assumes "c \<le> f" "2 \<le> unat m" "unat b < 256"
  shows "unat (ucast ((f - c) div m + b) :: uint8_t) = ((unat f - unat c) div unat m + unat b) mod 256"
proof -
  have "unat ((f - c) div m) = (unat f - unat c) div unat m"
    using assms(1) by (simp add: unat_div unat_sub)
  moreover have "(unat f - unat c) div unat m < 2 ^ 32 - 256"
  proof -
    have "unat f < 2 ^ 32"
      using unsigned_less [of f, where ?'a = nat] by simp
    moreover have "(unat f - unat c) div unat m \<le> (unat f - unat c) div 2"
      using assms(2) by (intro div_le_mono2) simp_all
    ultimately show ?thesis by simp
  qed
  ultimately have "unat ((f - c) div m + b) = (unat f - unat c) div unat m + unat b"
    using assms(3) by (simp add: unat_add_lem [THEN iffD1])
  then show ?thesis
    by (simp add: unsigned_ucast_eq take_bit_eq_mod)
qed

lemma unat_channelNumber:
  "unat (channelNumber f) =
     (case snd (spec_channelLabel (unat f)) of None \<Rightarrow> 0 | Some k \<Rightarrow> k mod 256)"
  by (simp add: channelNumber_def spec_channelLabel_def unat_channel_formula
      word_le_nat_alt word_less_nat_alt)


lemma spec_channelLabel_on_grid:
  assumes "on_grid n"
  shows "if n \<in> {6925, 7625, 8325, 9025, 9725}
         then spec_channelLabel n = (CHR ''-'', None)
         else \<exists>t k. spec_channelLabel n = (t, Some k) \<and> (t = CHR ''C'' \<or> t = CHR ''S'')
                \<and> 0 < k \<and> k < 256"
  using assms
proof (cases rule: on_gridE)
  case (low k)
  then have "k = 0 \<or> k = 1 \<or> k = 2 \<or> k = 3 \<or> k = 4 \<or> k = 5 \<or> k = 6 \<or> k = 7 \<or> k = 8"
    by arith
  with low(2) show ?thesis
    by (auto simp add: spec_channelLabel_def)
next
  case (mid k)
  then have "n \<notin> {6925, 7625, 8325, 9025, 9725}" "10525 \<le> n" "n \<le> 29425"
    by auto
  then show ?thesis
    by (simp add: spec_channelLabel_def) arith
next
  case (high k)
  then have "n \<notin> {6925, 7625, 8325, 9025, 9725}" "30325 \<le> n" "n \<le> 102325"
    by auto
  then show ?thesis
    by (simp add: spec_channelLabel_def) arith
qed

lemma word_of_small_unat:
  fixes d :: uint8_t
  assumes "unat d \<le> 4"
  shows "d = 0 \<or> d = 1 \<or> d = 2 \<or> d = 3 \<or> d = 4"
  using assms unfolding word_unat_eq_iff by simp arith

lemma unat_frequencyBits:
  assumes "unat (frequencyDivisor s) \<le> 4"
  shows "unat (frequencyBits s f) =
           (2 ^ unat (frequencyDivisor s) * unat f) mod 2 ^ 32 div 25 mod 2 ^ 16"
proof -
  have mult: "unat (k * f) = (unat k * unat f) mod 2 ^ 32" for k :: uint32_t
    by (simp add: unat_word_ariths)
  have "unat (frequencyDivisor s) \<le> 4" by (fact assms)
  from word_of_small_unat [OF this] show ?thesis
    by (auto simp add: frequencyBits_def frequencyDivisorPow_def unsigned_ucast_eq
        take_bit_eq_mod unat_div mult)
qed

lemma div_add_less:
  fixes x :: nat
  assumes "x < i * m" "i + b \<le> 256"
  shows "x div m + b < 256"
  using less_mult_imp_div_less [OF assms(1)] assms(2) by simp

lemma spec_channelLabel_number_bound:
  assumes "n < 235125" "snd (spec_channelLabel n) = Some k"
  shows "0 < k \<and> k < 256"
proof -
  consider "47125 \<le> n" | "30325 \<le> n" "n < 47125" | "23125 \<le> n" "n < 30325"
    | "17525 \<le> n" "n < 23125" | "10525 \<le> n" "n < 17525" | "4025 \<le> n" "n < 6925"
    | "n < 4025 \<or> 6925 \<le> n \<and> n < 10525"
    by linarith
  then show ?thesis
  proof cases
    case 1
    with assms have k: "k = (n - 47125) div 800 + 21"
      by (simp add: spec_channelLabel_def)
    from assms(1) have "(n - 47125) div 800 + 21 < 256"
      by (intro div_add_less [where i = 235]) simp_all
    with k show ?thesis by simp
  next
    case 2
    with assms have k: "k = (n - 30325) div 800 + 21"
      by (simp add: spec_channelLabel_def)
    from 2 have "(n - 30325) div 800 + 21 < 256"
      by (intro div_add_less [where i = 21]) simp_all
    with k show ?thesis by simp
  next
    case 3
    with assms have k: "k = (n - 23125) div 700 + 11"
      by (simp add: spec_channelLabel_def)
    from 3 have "(n - 23125) div 700 + 11 < 256"
      by (intro div_add_less [where i = 11]) simp_all
    with k show ?thesis by simp
  next
    case 4
    with assms have k: "k = (n - 17525) div 700 + 5"
      by (simp add: spec_channelLabel_def)
    from 4 have "(n - 17525) div 700 + 5 < 256"
      by (intro div_add_less [where i = 8]) simp_all
    with k show ?thesis by simp
  next
    case 5
    with assms have k: "k = (n - 10525) div 700 + 1"
      by (simp add: spec_channelLabel_def)
    from 5 have "(n - 10525) div 700 + 1 < 256"
      by (intro div_add_less [where i = 10]) simp_all
    with k show ?thesis by simp
  next
    case 6
    with assms have k: "k = (n - 4025) div 700 + 1"
      by (simp add: spec_channelLabel_def)
    from 6 have "(n - 4025) div 700 + 1 < 256"
      by (intro div_add_less [where i = 5]) simp_all
    with k show ?thesis by simp
  next
    case 7
    with assms show ?thesis
      by (auto simp add: spec_channelLabel_def)
  qed
qed

section \<open>The claims about the frequency model\<close>

text \<open>
  Claim C2, as stated, says that the frequency 4125 yields divisor exponent 4.  In the
  code the fourth row of the table is \<open>>= 4125\<close>, so 4125 yields 3.
\<close>

theorem setFrequencyDivider_4125_counterexample:
  "frequencyDivisor (setFrequencyDivider (set_frequency 4125 (power_on erased_eeprom))) = 3
   \<and> frequencyDivisor (setFrequencyDivider (set_frequency 4125 (power_on erased_eeprom))) \<noteq> 4"
  by (simp add: setFrequencyDivider_def set_frequency_def power_on_def)

text \<open>
  Claim C2 (amended): \<open>setFrequencyDivider\<close> stores the exponent of the first
  matching row of the table (0 above 42325, 1 above 21025, 2 above 10525, 3 from 4125
  on, 4 otherwise) and changes nothing else; in particular the frequency 4125 yields
  exponent 3, and only frequencies below 4125 yield 4.
\<close>

theorem setFrequencyDivider_table:
  "setFrequencyDivider s = s\<lparr>frequencyDivisor := of_nat (spec_divisorExponent (unat (frequency s)))\<rparr>
   \<and> (frequency s = 4125 \<longrightarrow> frequencyDivisor (setFrequencyDivider s) = 3)
   \<and> (unat (frequency s) < 4125 \<longrightarrow> frequencyDivisor (setFrequencyDivider s) = 4)"
  by (simp add: setFrequencyDivider_def spec_divisorExponent_def Let_def frequency_def
      word_less_nat_alt word_le_nat_alt)

theorem setFrequencyDivider_table_witness:
  "frequencyDivisor (setFrequencyDivider (set_frequency 4125 (power_on erased_eeprom))) = 3
   \<and> frequencyDivisor (setFrequencyDivider (set_frequency 4124 (power_on erased_eeprom))) = 4
   \<and> frequencyDivisor (setFrequencyDivider (set_frequency 47125 (power_on erased_eeprom))) = 0"
  using setFrequencyDivider_table [of "set_frequency 4125 (power_on erased_eeprom)"]
    setFrequencyDivider_table [of "set_frequency 4124 (power_on erased_eeprom)"]
    setFrequencyDivider_table [of "set_frequency 47125 (power_on erased_eeprom)"]
  by (simp add: frequency_set_frequency spec_divisorExponent_def)

text \<open>
  Claim C3, as stated for every frequency: at 235125 the table gives channel number
  256, while the 8 bit \<open>channelNumber\<close> of the code is 0 and is rendered as dashes.
\<close>

theorem channelNumber_235125_counterexample:
  "channelDig3 235125 = of_char CHR ''C'' \<and> channelNumber 235125 = 0
   \<and> spec_channelLabel 235125 = (CHR ''C'', Some 256)
   \<and> channelDig2 235125 = of_char CHR ''-'' \<and> channelDig1 235125 = of_char CHR ''-''"
  by (simp add: channelNumber_def channelDig3_def spec_channelLabel_def channelDig2_def
      channelDig1_def)

text \<open>
  Claim C3 (amended): for every frequency the band letter is the one of the first
  matching row of the channel table, and the channel number is the number of that row
  reduced modulo 256 (0 for the fallback row); for every frequency below 235125, so for
  every frequency from 4025 to 102325, the channel number is exactly the number of the
  row and is not 0, and the fallback row gives the letter \<open>-\<close> and number 0;
  the frequency 47125 gives \<open>C\<close> and 21.
\<close>

theorem channel_label_table:
  "channelDig3 f = of_char (fst (spec_channelLabel (unat f)))
   \<and> unat (channelNumber f) =
       (case snd (spec_channelLabel (unat f)) of None \<Rightarrow> 0 | Some k \<Rightarrow> k mod 256)
   \<and> (unat f < 235125 \<longrightarrow>
        (case snd (spec_channelLabel (unat f)) of None \<Rightarrow> channelNumber f = 0
         | Some k \<Rightarrow> unat (channelNumber f) = k \<and> channelNumber f \<noteq> 0))
   \<and> (f = 47125 \<longrightarrow> channelDig3 f = of_char CHR ''C'' \<and> channelNumber f = 21)"
proof -
  have "unat f < 235125 \<longrightarrow>
        (case snd (spec_channelLabel (unat f)) of None \<Rightarrow> channelNumber f = 0
         | Some k \<Rightarrow> unat (channelNumber f) = k \<and> channelNumber f \<noteq> 0)"
  proof (cases "snd (spec_channelLabel (unat f))")
    case None
    with unat_channelNumber [of f] show ?thesis
      by (simp add: unat_eq_0)
  next
    case (Some k)
    show ?thesis
    proof
      assume "unat f < 235125"
      from spec_channelLabel_number_bound [OF this Some] unat_channelNumber [of f] Some
      have "unat (channelNumber f) = k" "unat (channelNumber f) \<noteq> 0"
        by simp_all
      then have "unat (channelNumber f) = k \<and> channelNumber f \<noteq> 0"
        by auto
      with Some show "case snd (spec_channelLabel (unat f)) of None \<Rightarrow> channelNumber f = 0
         | Some k \<Rightarrow> unat (channelNumber f) = k \<and> channelNumber f \<noteq> 0"
        by simp
    qed
  qed
  moreover have "f = 47125 \<longrightarrow> channelDig3 f = of_char CHR ''C'' \<and> channelNumber f = 21"
    by (simp add: channelDig3_def channelNumber_def)
  ultimately show ?thesis
    using channelDig3_table [of f] unat_channelNumber [of f] by blast
qed

theorem channel_label_table_witness:
  "channelDig3 47125 = of_char CHR ''C'' \<and> channelNumber 47125 = 21
   \<and> channelDig3 4125 = of_char CHR ''C'' \<and> unat (channelNumber 4125) = 1
   \<and> channelDig3 9725 = of_char CHR ''-'' \<and> channelNumber 9725 = 0"
  using channel_label_table [of 47125] channel_label_table [of 4125] channel_label_table [of 9725]
  by (simp add: spec_channelLabel_def)

text \<open>
  Claim C4: one increment adds 700 in [4125,9725) and [10525,29425), 800 in
  [9725,10525) and [30325,102325), 900 in [29425,30325), and wraps to 4125 from 102325
  on; one decrement subtracts 700 in (4125,9725] and (10525,29425], 800 in
  (9725,10525] and (30325,102325], 900 in (29425,30325], and wraps to 102325 from
  4125 and below.
\<close>

theorem step_sizes:
  "let n = unat (frequency s);
       up = unat (frequency (incrementFrequency s));
       down = unat (frequency (decrementFrequency s))
   in (4125 \<le> n \<and> n < 9725 \<or> 10525 \<le> n \<and> n < 29425 \<longrightarrow> up = n + 700)
    \<and> (9725 \<le> n \<and> n < 10525 \<or> 30325 \<le> n \<and> n < 102325 \<longrightarrow> up = n + 800)
    \<and> (29425 \<le> n \<and> n < 30325 \<longrightarrow> up = n + 900)
    \<and> (102325 \<le> n \<longrightarrow> up = 4125)
    \<and> (4125 < n \<and> n \<le> 9725 \<or> 10525 < n \<and> n \<le> 29425 \<longrightarrow> down + 700 = n)
    \<and> (9725 < n \<and> n \<le> 10525 \<or> 30325 < n \<and> n \<le> 102325 \<longrightarrow> down + 800 = n)
    \<and> (29425 < n \<and> n \<le> 30325 \<longrightarrow> down + 900 = n)
    \<and> (n \<le> 4125 \<longrightarrow> down = 102325)"
  unfolding Let_def unat_frequency_incrementFrequency unat_frequency_decrementFrequency
  by simp

theorem step_sizes_witness:
  "unat (frequency (incrementFrequency (set_frequency 4125 (power_on erased_eeprom)))) = 4825
   \<and> unat (frequency (decrementFrequency (set_frequency 4125 (power_on erased_eeprom)))) = 102325
   \<and> unat (frequency (incrementFrequency (set_frequency 9725 (power_on erased_eeprom)))) = 10525
   \<and> unat (frequency (decrementFrequency (set_frequency 9725 (power_on erased_eeprom)))) + 700 = 9725
   \<and> unat (frequency (incrementFrequency (set_frequency 10525 (power_on erased_eeprom)))) = 11225
   \<and> unat (frequency (decrementFrequency (set_frequency 10525 (power_on erased_eeprom)))) + 800 = 10525
   \<and> unat (frequency (incrementFrequency (set_frequency 29425 (power_on erased_eeprom)))) = 30325
   \<and> unat (frequency (decrementFrequency (set_frequency 29425 (power_on erased_eeprom)))) + 700 = 29425
   \<and> unat (frequency (incrementFrequency (set_frequency 30325 (power_on erased_eeprom)))) = 31125
   \<and> unat (frequency (decrementFrequency (set_frequency 30325 (power_on erased_eeprom)))) + 900 = 30325
   \<and> unat (frequency (incrementFrequency (set_frequency 102325 (power_on erased_eeprom)))) = 4125
   \<and> unat (frequency (decrementFrequency (set_frequency 102325 (power_on erased_eeprom)))) + 800 = 102325"
  using step_sizes [of "set_frequency 4125 (power_on erased_eeprom)"]
    step_sizes [of "set_frequency 9725 (power_on erased_eeprom)"]
    step_sizes [of "set_frequency 10525 (power_on erased_eeprom)"]
    step_sizes [of "set_frequency 29425 (power_on erased_eeprom)"]
    step_sizes [of "set_frequency 30325 (power_on erased_eeprom)"]
    step_sizes [of "set_frequency 102325 (power_on erased_eeprom)"]
  by (simp add: Let_def frequency_set_frequency)

text \<open>
  Claim C5, as stated, says that no reachable frequency falls into the fallback row.
  Fifty-four decrements from the default reach 6925, which has no label.
\<close>

theorem unlabeled_reachable_counterexample:
  "frequency (stepping (replicate 54 Down) (power_on erased_eeprom)) = 6925
   \<and> channelDig3 (frequency (stepping (replicate 54 Down) (power_on erased_eeprom))) = of_char CHR ''-''
   \<and> channelNumber (frequency (stepping (replicate 54 Down) (power_on erased_eeprom))) = 0"
  by code_simp

text \<open>
  Claim C5 (amended): every frequency reachable by increments and decrements from
  the default 47125 falls in a labelled row of the channel table (letter \<open>C\<close> or
  \<open>S\<close> and a channel number other than 0), except the five frequencies 6925, 7625,
  8325, 9025 and 9725, which fall in the fallback row.
\<close>

theorem reachable_labels:
  "let f = frequency (stepping xs (power_on e)) in
   if unat f \<in> {6925, 7625, 8325, 9025, 9725}
   then channelDig3 f = of_char CHR ''-'' \<and> channelNumber f = 0
   else (channelDig3 f = of_char CHR ''C'' \<or> channelDig3 f = of_char CHR ''S'')
        \<and> channelNumber f \<noteq> 0"
proof -
  let ?f = "frequency (stepping xs (power_on e))"
  have grid: "on_grid (unat ?f)"
    by (rule on_grid_reachable)
  have "if unat ?f \<in> {6925, 7625, 8325, 9025, 9725}
        then channelDig3 ?f = of_char CHR ''-'' \<and> channelNumber ?f = 0
        else (channelDig3 ?f = of_char CHR ''C'' \<or> channelDig3 ?f = of_char CHR ''S'')
             \<and> channelNumber ?f \<noteq> 0"
  proof (cases "unat ?f \<in> {6925, 7625, 8325, 9025, 9725}")
    case True
    with spec_channelLabel_on_grid [OF grid]
    have "spec_channelLabel (unat ?f) = (CHR ''-'', None)"
      by simp
    with channelDig3_table [of ?f] unat_channelNumber [of ?f] True show ?thesis
      by (simp add: unat_eq_0 del: insert_iff)
  next
    case False
    with spec_channelLabel_on_grid [OF grid]
    obtain t k where tk: "spec_channelLabel (unat ?f) = (t, Some k)"
      "t = CHR ''C'' \<or> t = CHR ''S''" "0 < k" "k < 256"
      by auto
    from tk unat_channelNumber [of ?f] have "unat (channelNumber ?f) \<noteq> 0"
      by simp
    then have "channelNumber ?f \<noteq> 0"
      by auto
    with tk(1,2) channelDig3_table [of ?f] False show ?thesis
      by (auto simp del: insert_iff)
  qed
  then show ?thesis
    unfolding Let_def .
qed

theorem reachable_labels_witness:
  "frequency (stepping (replicate 50 Down) (power_on erased_eeprom)) = 9725
   \<and> channelDig3 (frequency (stepping (replicate 50 Down) (power_on erased_eeprom))) = of_char CHR ''-''
   \<and> frequency (stepping (replicate 51 Down) (power_on erased_eeprom)) = 9025
   \<and> channelDig3 (frequency (stepping (replicate 51 Down) (power_on erased_eeprom))) = of_char CHR ''-''
   \<and> frequency (stepping (replicate 52 Down) (power_on erased_eeprom)) = 8325
   \<and> channelDig3 (frequency (stepping (replicate 52 Down) (power_on erased_eeprom))) = of_char CHR ''-''
   \<and> frequency (stepping (replicate 53 Down) (power_on erased_eeprom)) = 7625
   \<and> channelDig3 (frequency (stepping (replicate 53 Down) (power_on erased_eeprom))) = of_char CHR ''-''
   \<and> frequency (stepping [Up] (power_on erased_eeprom)) = 47925
   \<and> channelDig3 (frequency (stepping [Up] (power_on erased_eeprom))) = of_char CHR ''C''
   \<and> channelNumber (frequency (stepping [Up] (power_on erased_eeprom))) \<noteq> 0"
proof -
  have a: "frequency (stepping (replicate 50 Down) (power_on erased_eeprom)) = 9725"
    "frequency (stepping (replicate 51 Down) (power_on erased_eeprom)) = 9025"
    "frequency (stepping (replicate 52 Down) (power_on erased_eeprom)) = 8325"
    "frequency (stepping (replicate 53 Down) (power_on erased_eeprom)) = 7625"
    by code_simp+
  have b: "frequency (stepping [Up] (power_on erased_eeprom)) = 47925"
    by code_simp
  show ?thesis
    using reachable_labels [of "replicate 50 Down" erased_eeprom]
      reachable_labels [of "replicate 51 Down" erased_eeprom]
      reachable_labels [of "replicate 52 Down" erased_eeprom]
      reachable_labels [of "replicate 53 Down" erased_eeprom]
      reachable_labels [of "[Up]" erased_eeprom]
    unfolding Let_def a b by (simp add: channelDig3_def)
qed

text \<open>
  Claim C6, as stated, says that the round trip fails at the two wrap boundaries.  It
  does not: from 102325 the increment gives 4125 and the decrement gives 102325 again,
  and from 4125 the increment gives 4825 and the decrement 4125.
\<close>

theorem wrap_roundtrip_counterexample:
  "frequency (stepping (replicate 69 Up) (power_on erased_eeprom)) = 102325
   \<and> frequency (decrementFrequency (incrementFrequency
        (stepping (replicate 69 Up) (power_on erased_eeprom)))) = 102325
   \<and> frequency (stepping (replicate 70 Up) (power_on erased_eeprom)) = 4125
   \<and> frequency (decrementFrequency (incrementFrequency
        (stepping (replicate 70 Up) (power_on erased_eeprom)))) = 4125"
  by code_simp

text \<open>
  Claim C6 (amended): for every frequency reachable by stepping from the default
  47125, the two wrap boundaries included, incrementing and then decrementing returns
  the original frequency, and so does decrementing and then incrementing.
\<close>

theorem reachable_roundtrip:
  "frequency (decrementFrequency (incrementFrequency (stepping xs (power_on e))))
     = frequency (stepping xs (power_on e))
   \<and> frequency (incrementFrequency (decrementFrequency (stepping xs (power_on e))))
     = frequency (stepping xs (power_on e))"
  using roundtrip_on_grid [OF on_grid_reachable, of xs e]
    roundtrip_back_on_grid [OF on_grid_reachable, of xs e]
  by (simp add: word_unat_eq_iff)

theorem reachable_roundtrip_witness:
  "frequency (decrementFrequency (incrementFrequency (stepping [Down, Down] (power_on erased_eeprom))))
     = 45525"
proof -
  have "frequency (stepping [Down, Down] (power_on erased_eeprom)) = 45525"
    by code_simp
  with reachable_roundtrip [of "[Down, Down]" erased_eeprom] show ?thesis
    by simp
qed

section \<open>The register frame\<close>

lemma mask_numerals:
  "(0x3F :: uint8_t) = mask 6" "(0x3F :: uint16_t) = mask 6" "(3 :: uint8_t) = mask 2"
  "(1 :: uint8_t) = mask 1"
  by (simp_all add: mask_eq_exp_minus_1)

lemma pack_unpack:
  fixes fb :: uint16_t
  assumes "fb < 4096"
  shows "push_bit 6 (ucast (reg_FM t fb AND 0x3F)) OR ucast (drop_bit 2 (reg_FL fb x)) = fb"
proof -
  have fb: "take_bit 12 fb = fb"
    using assms less_mask_eq [of fb 12] by (simp add: take_bit_eq_mask)
  have "push_bit 6 (ucast (reg_FM t fb AND 0x3F)) OR ucast (drop_bit 2 (reg_FL fb x))
          = take_bit 12 fb"
    unfolding reg_FM_def reg_FL_def mask_numerals
    by (rule bit_word_eqI) (auto simp add: bit_simps)
  with fb show ?thesis by simp
qed

lemma bits_exact:
  fixes n p :: nat
  assumes "25 dvd n" "p * n < 102400"
  shows "(p * n) mod 2 ^ 32 div 25 mod 2 ^ 16 * 25 = p * n"
    and "(p * n) mod 2 ^ 32 div 25 mod 2 ^ 16 < 4096"
proof -
  have a: "(p * n) mod 2 ^ 32 = p * n"
    using assms(2) by simp
  have b: "(p * n) div 25 < 4096"
    using assms(2) by (intro less_mult_imp_div_less) simp
  then have c: "(p * n) div 25 mod 2 ^ 16 = (p * n) div 25"
    by simp
  show "(p * n) mod 2 ^ 32 div 25 mod 2 ^ 16 * 25 = p * n"
    unfolding a c using assms(1) by simp
  show "(p * n) mod 2 ^ 32 div 25 mod 2 ^ 16 < 4096"
    unfolding a c by (rule b)
qed

lemma divisor_scaled_bound:
  "4125 \<le> n \<Longrightarrow> n \<le> 102325 \<Longrightarrow> 2 ^ spec_divisorExponent n * n < 102400"
  by (simp add: spec_divisorExponent_def)

lemma on_grid_bounds:
  assumes "on_grid n"
  shows "25 dvd n" "4125 \<le> n" "n \<le> 102325"
proof -
  from assms show "25 dvd n"
  proof (cases rule: on_gridE)
    case (low k)
    then have "n = 25 * (165 + 28 * k)" by simp
    then show ?thesis by (simp only: dvd_triv_left)
  next
    case (mid k)
    then have "n = 25 * (421 + 28 * k)" by simp
    then show ?thesis by (simp only: dvd_triv_left)
  next
    case (high k)
    then have "n = 25 * (1213 + 32 * k)" by simp
    then show ?thesis by (simp only: dvd_triv_left)
  qed
  from assms show "4125 \<le> n"
    by (cases rule: on_gridE) simp_all
  from assms show "n \<le> 102325"
    by (cases rule: on_gridE) simp_all
qed

lemma spec_divisorExponent_le: "spec_divisorExponent n \<le> 4"
  by (simp add: spec_divisorExponent_def)

text \<open>
  Claim C10: every frequency reachable by increments and decrements from the default
  47125 is a multiple of 25 between 4125 and 102325, and \<open>frequencyDivisor\<close> holds
  the derived exponent; so \<open>frequencyBits\<close> times 25 is exactly
  \<open>2 ^ frequencyDivisor\<close> times the frequency (nothing is lost in the 32 bit
  product, the division or the cut to 16 bits), it is below 4096, and it is recovered
  from the low six bits of FM and the upper six bits of FL.
\<close>

theorem reachable_frequencyBits_exact:
  "let s = stepping xs (power_on e);
       n = unat (frequency s);
       d = unat (frequencyDivisor s);
       fb = frequencyBits s (frequency s)
   in 25 dvd n \<and> 4125 \<le> n \<and> n \<le> 102325
      \<and> d = spec_divisorExponent n
      \<and> unat fb * 25 = 2 ^ d * n
      \<and> unat fb < 4096
      \<and> push_bit 6 (ucast (reg_FM t fb AND 0x3F)) OR ucast (drop_bit 2 (reg_FL fb x)) = fb"
proof -
  let ?s = "stepping xs (power_on e)"
  let ?n = "unat (frequency ?s)"
  let ?d = "unat (frequencyDivisor ?s)"
  let ?fb = "frequencyBits ?s (frequency ?s)"
  note grid = on_grid_bounds [OF on_grid_reachable, of xs e]
  have d: "?d = spec_divisorExponent ?n"
    using divisor_derived_reachable [of xs e] by (simp add: divisor_derived_def)
  have "?d \<le> 4"
    unfolding d by (rule spec_divisorExponent_le)
  then have fb: "unat ?fb = (2 ^ ?d * ?n) mod 2 ^ 32 div 25 mod 2 ^ 16"
    by (rule unat_frequencyBits)
  have small: "2 ^ ?d * ?n < 102400"
    unfolding d using grid(2,3) by (rule divisor_scaled_bound)
  have exact: "unat ?fb * 25 = 2 ^ ?d * ?n"
    unfolding fb using grid(1) small by (rule bits_exact(1))
  have bound: "unat ?fb < 4096"
    unfolding fb using grid(1) small by (rule bits_exact(2))
  then have "?fb < 4096"
    by (simp add: word_less_nat_alt)
  then have "push_bit 6 (ucast (reg_FM t ?fb AND 0x3F)) OR ucast (drop_bit 2 (reg_FL ?fb x)) = ?fb"
    by (rule pack_unpack)
  with grid d exact bound show ?thesis
    unfolding Let_def by blast
qed

theorem reachable_frequencyBits_exact_witness:
  "unat (frequencyBits (stepping [Down] (power_on erased_eeprom)) 46325) * 25 = 46325
   \<and> unat (frequencyBits (stepping [Down] (power_on erased_eeprom)) 46325) < 4096"
proof -
  have a: "frequency (stepping [Down] (power_on erased_eeprom)) = 46325"
    by code_simp
  have b: "frequencyDivisor (stepping [Down] (power_on erased_eeprom)) = 0"
    by code_simp
  show ?thesis
    using reachable_frequencyBits_exact [of "[Down]" erased_eeprom]
    unfolding Let_def a b by simp
qed

lemma filter_is_wire_LcdWrite: "filter is_wire (map LcdWrite xs) = []"
  by (induction xs) simp_all

lemma reg_C1_reserved_zero: "reg_C1 0 0 0 X 0 = spec_C1 0 0 X 0"
  by (simp add: reg_C1_def spec_C1_def)

lemma reg_C0_reserved_zero: "reg_C0 0 0 0 SFD 0 X = spec_C0 0 0 0 SFD 0 X"
  by (simp add: reg_C0_def spec_C0_def)

lemma reg_FM_masked: "reg_FM TPEN fb = spec_FM (TPEN AND 1) fb"
  by (simp add: reg_FM_def spec_FM_def and.commute)

lemma reg_FL_spec: "reg_FL fb X = spec_FL fb X"
  unfolding reg_FL_def spec_FL_def mask_numerals
  by (rule bit_word_eqI) (auto simp add: bit_simps)

lemma wire_address: "(drop_bit 1 0xCA :: uint8_t) = 0x65"
  by simp

lemma writeConfig_wire_calls:
  "wire_calls (writeConfig s) =
     wire_calls s @
     [WireBeginTransmission 0x65,
      WireWrite (spec_C1 0 0 (frequencyDivisor s) 0),
      WireWrite (spec_C0 0 0 0 (standard (currentSettings s)) 0 (frequencyDivisor s)),
      WireWrite (spec_FM (testPatternEnable (currentSettings s) AND 1)
                   (frequencyBits s (frequencyTimes100 (currentSettings s)))),
      WireWrite (spec_FL (frequencyBits s (frequencyTimes100 (currentSettings s)))
                   (frequencyDivisor s)),
      WireEndTransmission]"
  unfolding writeConfig_def writeConfig_params_def writeConfigRaw_def Let_def
    reg_C1_reserved_zero reg_C0_reserved_zero reg_FM_masked reg_FL_spec wire_address
  by (simp add: wire_calls_def emit_def filter_is_wire_LcdWrite)

lemma divisor_scaled_no_wrap:
  "n < 2 ^ 32 \<Longrightarrow> 2 ^ spec_divisorExponent n * n < (2 :: nat) ^ 32"
  by (simp add: spec_divisorExponent_def)

lemma frequencyBits_derived:
  assumes "divisor_derived s"
  shows "frequencyBits s (frequency s)
           = of_nat (2 ^ spec_divisorExponent (unat (frequency s)) * unat (frequency s) div 25)"
proof -
  let ?n = "unat (frequency s)"
  have d: "unat (frequencyDivisor s) = spec_divisorExponent ?n"
    using assms by (simp add: divisor_derived_def)
  then have "unat (frequencyDivisor s) \<le> 4"
    by (simp add: spec_divisorExponent_le)
  then have "unat (frequencyBits s (frequency s))
               = (2 ^ spec_divisorExponent ?n * ?n) mod 2 ^ 32 div 25 mod 2 ^ 16"
    unfolding d [symmetric] by (rule unat_frequencyBits)
  moreover have "?n < 2 ^ 32"
    using unsigned_less [of "frequency s", where ?'a = nat] by simp
  then have "2 ^ spec_divisorExponent ?n * ?n < (2 :: nat) ^ 32"
    by (rule divisor_scaled_no_wrap)
  ultimately have "unat (frequencyBits s (frequency s))
               = (2 ^ spec_divisorExponent ?n * ?n) div 25 mod 2 ^ 16"
    by simp
  then show ?thesis
    by (simp add: word_unat_eq_iff unat_of_nat)
qed

lemma and_1_of_le_1: "t AND 1 = t" if "t \<le> 1" for t :: uint8_t
proof -
  from that have "unat t = 0 \<or> unat t = 1"
    by (auto simp add: word_le_nat_alt)
  then have "t = 0 \<or> t = 1"
    by (simp add: word_unat_eq_iff)
  then show ?thesis by auto
qed

text \<open>
  On every path that keeps \<open>frequencyDivisor\<close> at the exponent derived from the
  frequency (reset, and every increment and decrement), \<open>writeConfig\<close> makes exactly
  one transmission to the 7 bit address 0x65 with the four bytes C1, C0, FM, FL of the
  specification's formulas, all reserved bits 0; the code masks the test-pattern flag
  to its lowest bit, which changes nothing for the flag values 0 and 1.
\<close>

lemma writeConfig_frame_derived:
  assumes "divisor_derived s"
  shows
  "let c = currentSettings s;
       n = unat (frequencyTimes100 c);
       e = spec_divisorExponent n;
       d = (of_nat e :: uint8_t);
       fb = (of_nat (2 ^ e * n div 25) :: uint16_t)
   in wire_calls (writeConfig s) =
        wire_calls s @
        [WireBeginTransmission 0x65,
         WireWrite (spec_C1 0 0 d 0),
         WireWrite (spec_C0 0 0 0 (standard c) 0 d),
         WireWrite (spec_FM (testPatternEnable c AND 1) fb),
         WireWrite (spec_FL fb d),
         WireEndTransmission]
      \<and> (testPatternEnable c \<le> 1 \<longrightarrow>
           spec_FM (testPatternEnable c AND 1) fb = spec_FM (testPatternEnable c) fb)"
proof -
  have "unat (frequencyDivisor s) = spec_divisorExponent (unat (frequency s))"
    using assms by (simp add: divisor_derived_def)
  then have d: "frequencyDivisor s = of_nat (spec_divisorExponent (unat (frequency s)))"
    by (metis of_nat_unat ucast_id)
  show ?thesis
    unfolding Let_def writeConfig_wire_calls
      frequencyBits_derived [OF assms, unfolded frequency_def] d [unfolded frequency_def]
    by (simp add: and_1_of_le_1)
qed

section \<open>Saving and loading the settings\<close>

lemma word16_of_bytes: "ucast (ucast w :: uint8_t) OR push_bit 8 (ucast (ucast (drop_bit 8 w) :: uint8_t)) = w"
  for w :: uint16_t
  by (rule bit_word_eqI) (auto simp add: bit_simps)

lemma word16_low_byte: "ucast (ucast a OR push_bit 8 (ucast b) :: uint16_t) = a"
  for a b :: uint8_t
  by (rule bit_word_eqI) (auto simp add: bit_simps)

lemma word16_high_byte: "ucast (drop_bit 8 (ucast a OR push_bit 8 (ucast b) :: uint16_t)) = b"
  for a b :: uint8_t
  by (rule bit_word_eqI) (auto simp add: bit_simps dest: bit_imp_le_length)

lemma word32_of_bytes:
  "ucast (ucast f :: uint8_t) OR push_bit 8 (ucast (ucast (drop_bit 8 f) :: uint8_t))
     OR push_bit 16 (ucast (ucast (drop_bit 16 f) :: uint8_t))
     OR push_bit 24 (ucast (ucast (drop_bit 24 f) :: uint8_t)) = f"
  (is "?w = f")
  for f :: uint32_t
proof (rule bit_word_eqI)
  fix n :: nat
  assume "n < LENGTH(32)"
  then consider "n < 8" | "8 \<le> n" "n < 16" | "16 \<le> n" "n < 24" | "24 \<le> n" "n < 32"
    by fastforce
  then show "bit ?w n = bit f n"
    by cases (simp_all add: bit_simps, arith+)
qed

lemma settings_of_bytes_settings_bytes: "settings_of_bytes (settings_bytes c) = c"
  by (simp add: settings_of_bytes_def settings_bytes_def Let_def word32_of_bytes)

lemma length_settings_bytes: "length (settings_bytes c) = 6"
  by (simp add: settings_bytes_def Let_def)

lemma eeprom_write_block_eeprom:
  "eeprom (eeprom_write_block bs a s) i =
     (if a \<le> i \<and> i < a + length bs then bs ! (i - a) else eeprom s i)"
proof (induction bs a s rule: eeprom_write_block.induct)
  case (1 a s)
  show ?case by auto
next
  case (2 b bs a s)
  then show ?case
    by (cases "i = a") (auto simp add: Suc_diff_le)
qed

lemma eeprom_read_block_nth:
  "length (eeprom_read_block a n s) = n"
  "j < n \<Longrightarrow> eeprom_read_block a n s ! j = eeprom s (a + j)"
  by (simp_all add: eeprom_read_block_def)

lemma eeprom_currentSettings_save:
  "eeprom (snd (currentSettings_save s)) i =
     (if i = 0 then 0x45 else if i = 1 then 0x4E
      else if 2 \<le> i \<and> i < 8 then settings_bytes (currentSettings s) ! (i - 2)
      else if i = 8 then ucast (checksum_loop (settings_bytes (currentSettings s)) 0)
      else if i = 9 then ucast (drop_bit 8 (checksum_loop (settings_bytes (currentSettings s)) 0))
      else eeprom s i)"
  by (simp add: currentSettings_save_def eeprom_write_word_def Let_def
      eeprom_write_block_eeprom length_settings_bytes
      CURRENTSETTINGS_ADDRESS_def sizeof_header_def sizeof_settings_def EEPROM_HEADER_def
      numeral_2_eq_2 [symmetric])

lemma currentSettings_load_eq:
  "currentSettings_load s =
     (if eeprom_read_word 8 s = checksum_loop (eeprom_read_block 2 6 s) 0
         \<and> eeprom_read_word 0 s = 0x4E45
      then (0, s\<lparr>currentSettings := settings_of_bytes (eeprom_read_block 2 6 s)\<rparr>)
      else (1, s))"
  by (simp add: currentSettings_load_def Let_def
      CURRENTSETTINGS_ADDRESS_def sizeof_header_def sizeof_settings_def EEPROM_HEADER_def
      numeral_2_eq_2 [symmetric])

lemma saved_header:
  assumes "eeprom t = eeprom (snd (currentSettings_save s))"
  shows "eeprom_read_word 0 t = 0x4E45"
  by (simp add: eeprom_read_word_def assms eeprom_currentSettings_save)

lemma saved_block:
  assumes "eeprom t = eeprom (snd (currentSettings_save s))"
  shows "eeprom_read_block 2 6 t = settings_bytes (currentSettings s)"
  by (rule nth_equalityI)
    (simp_all add: eeprom_read_block_nth length_settings_bytes assms eeprom_currentSettings_save)

lemma saved_checksum:
  assumes "eeprom t = eeprom (snd (currentSettings_save s))"
  shows "eeprom_read_word 8 t = checksum_loop (settings_bytes (currentSettings s)) 0"
  by (simp add: eeprom_read_word_def assms eeprom_currentSettings_save word16_of_bytes)

lemma load_after_save:
  assumes "eeprom t = eeprom (snd (currentSettings_save s))"
  shows "currentSettings_load t = (0, t\<lparr>currentSettings := currentSettings s\<rparr>)"
  by (simp add: currentSettings_load_eq saved_header [OF assms] saved_block [OF assms]
      saved_checksum [OF assms] settings_of_bytes_settings_bytes)

lemma unat_ucast_byte: "unat (ucast b :: uint16_t) = unat b" for b :: uint8_t
proof -
  have "unat b < 2 ^ 8"
    using unsigned_less [of b, where ?'a = nat] by simp
  then have "unat b < 2 ^ 16" by simp
  then show ?thesis
    by (simp add: unsigned_ucast_eq take_bit_nat_eq_self)
qed

lemma unat_checksum_loop:
  "unat (checksum_loop bs c) = (unat c + sum_list (map unat bs)) mod 2 ^ 16"
proof (induction bs arbitrary: c)
  case Nil
  have "unat c < 2 ^ 16"
    using unsigned_less [of c, where ?'a = nat] by simp
  then show ?case by simp
next
  case (Cons b bs)
  have "unat (c + ucast b) = (unat c + unat b) mod 2 ^ 16"
    by (simp add: unat_word_ariths unat_ucast_byte)
  then show ?case
    by (simp add: Cons.IH mod_add_left_eq add.assoc)
qed

lemma sum_list_bytes_le: "sum_list (map unat bs) \<le> 255 * length bs" for bs :: "uint8_t list"
proof (induction bs)
  case Nil
  show ?case by simp
next
  case (Cons b bs)
  have "unat b < 2 ^ 8"
    using unsigned_less [of b, where ?'a = nat] by simp
  with Cons show ?case by simp
qed

lemma checksum_loop_update:
  fixes bs :: "uint8_t list"
  assumes "j < length bs" "length bs = 6" "b \<noteq> bs ! j"
  shows "checksum_loop (bs[j := b]) 0 \<noteq> checksum_loop bs 0"
proof -
  have old: "sum_list (map unat bs) \<le> 1530"
    using sum_list_bytes_le [of bs] assms(2) by simp
  have new: "sum_list (map unat (bs[j := b])) \<le> 1530"
    using sum_list_bytes_le [of "bs[j := b]"] assms(2) by simp
  have "sum_list ((map unat bs)[j := unat b]) = sum_list (map unat bs) + unat b - unat (bs ! j)"
    using assms(1) by (simp add: sum_list_update)
  moreover have "unat (bs ! j) \<le> sum_list (map unat bs)"
    using assms(1) by (intro member_le_sum_list) auto
  moreover have "unat b \<noteq> unat (bs ! j)"
    using assms(3) by (simp add: word_unat_eq_iff)
  ultimately have "sum_list (map unat (bs[j := b])) \<noteq> sum_list (map unat bs)"
    by (simp add: map_update)
  with old new have "unat (checksum_loop (bs[j := b]) 0) \<noteq> unat (checksum_loop bs 0)"
    by (simp add: unat_checksum_loop)
  then show ?thesis by auto
qed

lemma eeprom_read_word_update_other:
  assumes "eeprom t = (eeprom u)(i := b)" "i \<noteq> a" "i \<noteq> Suc a"
  shows "eeprom_read_word a t = eeprom_read_word a u"
  using assms by (simp add: eeprom_read_word_def)

lemma eeprom_read_word_update_same:
  assumes "eeprom t = (eeprom u)(i := b)" "i = a \<or> i = Suc a" "b \<noteq> eeprom u i"
  shows "eeprom_read_word a t \<noteq> eeprom_read_word a u"
proof
  assume eq: "eeprom_read_word a t = eeprom_read_word a u"
  from eq have "(ucast (eeprom_read_word a t) :: uint8_t) = ucast (eeprom_read_word a u)"
    by simp
  then have lo: "eeprom t a = eeprom u a"
    by (simp only: eeprom_read_word_def word16_low_byte)
  from eq have "(ucast (drop_bit 8 (eeprom_read_word a t)) :: uint8_t)
                  = ucast (drop_bit 8 (eeprom_read_word a u))"
    by simp
  then have hi: "eeprom t (Suc a) = eeprom u (Suc a)"
    by (simp only: eeprom_read_word_def word16_high_byte)
  from assms(2) show False
  proof
    assume "i = a"
    with lo assms(1,3) show False by simp
  next
    assume "i = Suc a"
    with hi assms(1,3) show False by simp
  qed
qed

lemma eeprom_read_block_update:
  assumes "eeprom t = (eeprom u)(i := b)"
  shows "eeprom_read_block a n t =
           (if a \<le> i \<and> i < a + n then (eeprom_read_block a n u)[i - a := b]
            else eeprom_read_block a n u)"
  by (rule nth_equalityI) (auto simp add: eeprom_read_block_nth assms nth_list_update)

lemma load_corrupted:
  assumes t: "eeprom t = (eeprom (snd (currentSettings_save s)))(i := b)"
    and i: "i < 10" and b: "b \<noteq> eeprom (snd (currentSettings_save s)) i"
  shows "currentSettings_load t = (1, t)"
proof -
  let ?u = "snd (currentSettings_save s)"
  note u = saved_header [of ?u s] saved_block [of ?u s] saved_checksum [of ?u s]
  consider "i = 0 \<or> i = Suc 0" | "2 \<le> i" "i < 8" | "i = 8 \<or> i = Suc 8"
    using i by fastforce
  then show ?thesis
  proof cases
    case 1
    from eeprom_read_word_update_same [OF t 1 b] u(1)
    have "eeprom_read_word 0 t \<noteq> 0x4E45" by simp
    then show ?thesis by (simp add: currentSettings_load_eq)
  next
    case 2
    then have "i \<noteq> 8" "i \<noteq> Suc 8" by simp_all
    from eeprom_read_word_update_other [OF t this] u(3)
    have cs: "eeprom_read_word 8 t = checksum_loop (settings_bytes (currentSettings s)) 0"
      by simp
    from 2 eeprom_read_block_update [OF t, of 2 6] u(2)
    have blk: "eeprom_read_block 2 6 t = (settings_bytes (currentSettings s))[i - 2 := b]"
      by simp
    from b 2 have "b \<noteq> settings_bytes (currentSettings s) ! (i - 2)"
      by (simp add: eeprom_currentSettings_save)
    with 2 have "checksum_loop ((settings_bytes (currentSettings s))[i - 2 := b]) 0
                   \<noteq> checksum_loop (settings_bytes (currentSettings s)) 0"
      by (intro checksum_loop_update) (simp_all add: length_settings_bytes)
    with cs blk show ?thesis by (simp add: currentSettings_load_eq)
  next
    case 3
    from eeprom_read_word_update_same [OF t 3 b] u(3)
    have cs: "eeprom_read_word 8 t \<noteq> checksum_loop (settings_bytes (currentSettings s)) 0"
      by simp
    from 3 eeprom_read_block_update [OF t, of 2 6] u(2)
    have blk: "eeprom_read_block 2 6 t = settings_bytes (currentSettings s)"
      by auto
    with cs show ?thesis by (simp add: currentSettings_load_eq)
  qed
qed

text \<open>
  Claim C7: for every settings value, \<open>currentSettings_save\<close> followed by
  \<open>currentSettings_load\<close> on the same EEPROM is accepted and yields the saved
  settings, byte for byte; the same holds when the load runs from any other globals
  (after a reset, say) over the EEPROM that the save left.
\<close>

theorem save_then_load:
  "fst (currentSettings_save s) = 6
   \<and> fst (currentSettings_load (snd (currentSettings_save s))) = 0
   \<and> currentSettings (snd (currentSettings_load (snd (currentSettings_save s))))
       = currentSettings s
   \<and> settings_bytes (currentSettings (snd (currentSettings_load (snd (currentSettings_save s)))))
       = settings_bytes (currentSettings s)
   \<and> currentSettings_load (t\<lparr>eeprom := eeprom (snd (currentSettings_save s))\<rparr>)
       = (0, t\<lparr>eeprom := eeprom (snd (currentSettings_save s)),
                 currentSettings := currentSettings s\<rparr>)"
proof -
  have "fst (currentSettings_save s) = 6"
    by (simp add: currentSettings_save_def Let_def sizeof_settings_def)
  moreover have "currentSettings_load (snd (currentSettings_save s))
      = (0, (snd (currentSettings_save s))\<lparr>currentSettings := currentSettings s\<rparr>)"
    by (rule load_after_save) simp
  moreover have "currentSettings_load (t\<lparr>eeprom := eeprom (snd (currentSettings_save s))\<rparr>)
      = (0, t\<lparr>eeprom := eeprom (snd (currentSettings_save s)),
                currentSettings := currentSettings s\<rparr>)"
    by (rule load_after_save) simp
  ultimately show ?thesis by simp
qed

theorem save_then_load_witness:
  "fst (currentSettings_load (snd (currentSettings_save
      (set_frequency 102325 (set_testPatternEnable 0xFF (power_on erased_eeprom)))))) = 0
   \<and> currentSettings (snd (currentSettings_load (snd (currentSettings_save
      (set_frequency 102325 (set_testPatternEnable 0xFF (power_on erased_eeprom)))))))
     = \<lparr>testPatternEnable = 0xFF, standard = 2, frequencyTimes100 = 102325\<rparr>"
  using save_then_load [of "set_frequency 102325 (set_testPatternEnable 0xFF (power_on erased_eeprom))"]
  by (simp add: set_frequency_def set_testPatternEnable_def power_on_def default_settings_def)

text \<open>
  Claim C8: \<open>currentSettings_load\<close> accepts the stored block if and only if the
  stored header is 0x4E45 and the stored checksum is the sum of the six settings bytes
  modulo \<open>2 ^ 16\<close>; when it accepts it copies the stored settings into
  \<open>currentSettings\<close>; when it rejects it changes nothing, so after reset the
  settings stay at the defaults (test pattern 1, standard 2, frequency 47125); and
  changing any single byte of the ten bytes that a save wrote makes the load reject.
\<close>

theorem load_accepts_iff:
  "(fst (currentSettings_load s) = 0 \<longleftrightarrow>
      eeprom_read_word 0 s = 0x4E45
      \<and> unat (eeprom_read_word 8 s) = sum_list (map (\<lambda>a. unat (eeprom s a)) [2..<8]) mod 2 ^ 16)
   \<and> (fst (currentSettings_load s) = 0 \<longrightarrow>
        snd (currentSettings_load s)
          = s\<lparr>currentSettings := settings_of_bytes (map (eeprom s) [2..<8])\<rparr>)
   \<and> (fst (currentSettings_load s) \<noteq> 0 \<longrightarrow>
        fst (currentSettings_load s) = 1 \<and> snd (currentSettings_load s) = s)
   \<and> (fst (currentSettings_load (power_on e)) \<noteq> 0 \<longrightarrow>
        currentSettings (snd (currentSettings_load (power_on e)))
          = \<lparr>testPatternEnable = 1, standard = 2, frequencyTimes100 = 47125\<rparr>)
   \<and> (i < 10 \<and> b \<noteq> eeprom (snd (currentSettings_save u)) i \<longrightarrow>
        currentSettings_load (s\<lparr>eeprom := (eeprom (snd (currentSettings_save u)))(i := b)\<rparr>)
          = (1, s\<lparr>eeprom := (eeprom (snd (currentSettings_save u)))(i := b)\<rparr>))"
proof -
  have blk: "eeprom_read_block 2 6 s = map (eeprom s) [2..<8]" for s
    by (simp add: eeprom_read_block_def)
  have "unat (checksum_loop (eeprom_read_block 2 6 s) 0)
          = sum_list (map (\<lambda>a. unat (eeprom s a)) [2..<8]) mod 2 ^ 16"
    unfolding unat_checksum_loop blk by (simp add: comp_def)
  then have a: "fst (currentSettings_load s) = 0 \<longleftrightarrow>
      eeprom_read_word 0 s = 0x4E45
      \<and> unat (eeprom_read_word 8 s) = sum_list (map (\<lambda>a. unat (eeprom s a)) [2..<8]) mod 2 ^ 16"
    by (auto simp add: currentSettings_load_eq word_unat_eq_iff)
  have b: "fst (currentSettings_load s) = 0 \<longrightarrow>
        snd (currentSettings_load s)
          = s\<lparr>currentSettings := settings_of_bytes (map (eeprom s) [2..<8])\<rparr>"
    unfolding blk [symmetric] by (simp add: currentSettings_load_eq)
  have c: "fst (currentSettings_load s) \<noteq> 0 \<longrightarrow>
        fst (currentSettings_load s) = 1 \<and> snd (currentSettings_load s) = s" for s
    by (simp add: currentSettings_load_eq)
  have "currentSettings (power_on e)
          = \<lparr>testPatternEnable = 1, standard = 2, frequencyTimes100 = 47125\<rparr>"
    by (simp add: power_on_def default_settings_def)
  with c [of "power_on e"]
  have d: "fst (currentSettings_load (power_on e)) \<noteq> 0 \<longrightarrow>
        currentSettings (snd (currentSettings_load (power_on e)))
          = \<lparr>testPatternEnable = 1, standard = 2, frequencyTimes100 = 47125\<rparr>"
    by simp
  have e: "i < 10 \<and> b \<noteq> eeprom (snd (currentSettings_save u)) i \<longrightarrow>
        currentSettings_load (s\<lparr>eeprom := (eeprom (snd (currentSettings_save u)))(i := b)\<rparr>)
          = (1, s\<lparr>eeprom := (eeprom (snd (currentSettings_save u)))(i := b)\<rparr>)"
    by (auto intro!: load_corrupted)
  from a b c [of s] d e show ?thesis
    by blast
qed

theorem load_accepts_iff_witness:
  "fst (currentSettings_load (power_on erased_eeprom)) = 1
   \<and> currentSettings (snd (currentSettings_load (power_on erased_eeprom))) = default_settings
   \<and> fst (currentSettings_load (snd (currentSettings_save (power_on erased_eeprom)))) = 0
   \<and> snd (currentSettings_load (snd (currentSettings_save (power_on erased_eeprom))))
       = (snd (currentSettings_save (power_on erased_eeprom)))
           \<lparr>currentSettings := settings_of_bytes
              (map (eeprom (snd (currentSettings_save (power_on erased_eeprom)))) [2..<8])\<rparr>
   \<and> currentSettings_load
        ((power_on erased_eeprom)
           \<lparr>eeprom := (eeprom (snd (currentSettings_save (power_on erased_eeprom))))(4 := 0)\<rparr>)
       = (1, (power_on erased_eeprom)
           \<lparr>eeprom := (eeprom (snd (currentSettings_save (power_on erased_eeprom))))(4 := 0)\<rparr>)"
proof -
  have h: "eeprom_read_word 0 (power_on erased_eeprom) \<noteq> 0x4E45"
    by (simp add: eeprom_read_word_def power_on_def erased_eeprom_def)
  have k: "(4::nat) < 10 \<and> (0::uint8_t) \<noteq> eeprom (snd (currentSettings_save (power_on erased_eeprom))) 4"
    by (simp add: eeprom_currentSettings_save settings_bytes_def power_on_def default_settings_def)
  have ok: "fst (currentSettings_load (snd (currentSettings_save (power_on erased_eeprom)))) = 0"
    by (simp add: load_after_save)
  note T = load_accepts_iff [of "power_on erased_eeprom" erased_eeprom 4 0 "power_on erased_eeprom"]
  note U = load_accepts_iff [of "snd (currentSettings_save (power_on erased_eeprom))"]
  from T h have r: "fst (currentSettings_load (power_on erased_eeprom)) \<noteq> 0"
    by blast
  with T have "fst (currentSettings_load (power_on erased_eeprom)) = 1"
    and "currentSettings (snd (currentSettings_load (power_on erased_eeprom)))
          = \<lparr>testPatternEnable = 1, standard = 2, frequencyTimes100 = 47125\<rparr>"
    by blast+
  moreover from T k have "currentSettings_load
        ((power_on erased_eeprom)
           \<lparr>eeprom := (eeprom (snd (currentSettings_save (power_on erased_eeprom))))(4 := 0)\<rparr>)
       = (1, (power_on erased_eeprom)
           \<lparr>eeprom := (eeprom (snd (currentSettings_save (power_on erased_eeprom))))(4 := 0)\<rparr>)"
    by blast
  moreover from U ok
  have "snd (currentSettings_load (snd (currentSettings_save (power_on erased_eeprom))))
       = (snd (currentSettings_save (power_on erased_eeprom)))
           \<lparr>currentSettings := settings_of_bytes
              (map (eeprom (snd (currentSettings_save (power_on erased_eeprom)))) [2..<8])\<rparr>"
    by blast
  ultimately show ?thesis
    using ok by (simp only: default_settings_def simp_thms)
qed

text \<open>
  Claim C9, as stated, says that a released event in the idle state leaves the state
  idle.  In the code the last \<open>else\<close> of the released case also takes the idle
  state to the channel state.
\<close>

theorem idle_released_counterexample:
  "function' (power_on erased_eeprom) = fnIdle
   \<and> function' (handleFEvent kEventReleased (power_on erased_eeprom)) = fnChannel
   \<and> function' (handleFEvent kEventReleased (power_on erased_eeprom)) \<noteq> fnIdle"
  by (simp add: power_on_def set_function_def lcd_setCursor_function_def emit_def
      fnIdle_def fnChannel_def fnStandard_def)

text \<open>
  Claim C9 (amended): in the idle state a released event of the function button moves
  the state to channel editing and places the cursor at column 2; in general it maps
  channel to standard, standard to test pattern and every other state to channel, and
  it changes neither the settings nor the EEPROM.
\<close>

theorem handleFEvent_released:
  "(function' s = fnIdle \<longrightarrow>
      handleFEvent kEventReleased s
        = s\<lparr>function' := fnChannel, trace := trace s @ [LcdSetCursor (Some 2) 0]\<rparr>)
   \<and> function' (handleFEvent kEventReleased s) =
       (if function' s = fnChannel then fnStandard
        else if function' s = fnStandard then fnTestPattern else fnChannel)
   \<and> currentSettings (handleFEvent kEventReleased s) = currentSettings s
   \<and> eeprom (handleFEvent kEventReleased s) = eeprom s"
  by (simp add: set_function_def lcd_setCursor_function_def emit_def array_read_def
      fnCursorPositions_def fnIdle_def fnChannel_def fnStandard_def fnTestPattern_def)

theorem handleFEvent_released_witness:
  "handleFEvent kEventReleased (power_on erased_eeprom)
     = (power_on erased_eeprom)\<lparr>function' := fnChannel, trace := [LcdSetCursor (Some 2) 0]\<rparr>"
proof -
  have "function' (power_on erased_eeprom) = fnIdle" "trace (power_on erased_eeprom) = []"
    by (simp_all add: power_on_def)
  with handleFEvent_released [of "power_on erased_eeprom"] show ?thesis
    by simp
qed

section \<open>The register write at start-up\<close>

lemma stepped_4125:
  "currentSettings (stepping (replicate 70 Up) (power_on erased_eeprom))
     = \<lparr>testPatternEnable = 1, standard = 2, frequencyTimes100 = 4125\<rparr>"
  "frequencyDivisor (stepping (replicate 70 Up) (power_on erased_eeprom)) = 3"
  by code_simp+

lemma writeConfig_globals:
  "currentSettings (writeConfig s) = currentSettings s"
  "frequencyDivisor (writeConfig s) = frequencyDivisor s"
  by (simp_all add: writeConfig_def writeConfig_params_def writeConfigRaw_def emit_def Let_def)

lemma saved_4125_bytes:
  "map saved_4125_eeprom [0..<10] = [0x45, 0x4E, 0x01, 0x02, 0x1D, 0x10, 0x00, 0x00, 0x30, 0x00]"
proof -
  have "[0..<10] = [0, 1, 2, 3, 4, 5, 6, 7, 8, 9 :: nat]"
    by code_simp
  then show ?thesis
    by (simp add: saved_4125_eeprom_def eeprom_currentSettings_save stepped_4125
        settings_bytes_def)
qed

lemma load_saved_4125:
  "currentSettings_load (power_on saved_4125_eeprom)
     = (0, (power_on saved_4125_eeprom)
             \<lparr>currentSettings :=
                \<lparr>testPatternEnable = 1, standard = 2, frequencyTimes100 = 4125\<rparr>\<rparr>)"
proof -
  have "eeprom (power_on saved_4125_eeprom)
          = eeprom (snd (currentSettings_save (stepping (replicate 70 Up) (power_on erased_eeprom))))"
    by (simp add: power_on_def saved_4125_eeprom_def)
  from load_after_save [OF this] show ?thesis
    by (simp only: stepped_4125)
qed


text \<open>
  Claim C1: for every settings value, with the divisor exponent derived from the
  frequency and the register frequency bits \<open>2 ^ exponent * frequency / 25\<close>, the
  register write emits exactly the four bytes C1, C0, FM, FL of the specification's
  formulas to address 0x65.  The start-up path breaks this: \<open>currentSettings_load\<close>
  replaces the frequency without calling \<open>setFrequencyDivider\<close>, so the first
  \<open>writeConfig\<close> still uses the exponent 0 of the reset state.  With the block that
  the firmware saved at 41.25 MHz (test pattern 1, standard 2), the start-up sends
  80 10 42 94, while the derived exponent is 3 and the formulas give 80 10 54 A3.
\<close>

theorem startup_frame_stale_divisor:
  "map saved_4125_eeprom [0..<10] = [0x45, 0x4E, 0x01, 0x02, 0x1D, 0x10, 0x00, 0x00, 0x30, 0x00]
   \<and> currentSettings (sketch_setup False (power_on saved_4125_eeprom))
       = \<lparr>testPatternEnable = 1, standard = 2, frequencyTimes100 = 4125\<rparr>
   \<and> frequencyDivisor (sketch_setup False (power_on saved_4125_eeprom)) = 0
   \<and> spec_divisorExponent 4125 = 3
   \<and> wire_calls (sketch_setup False (power_on saved_4125_eeprom))
       = [WireBeginTransmission 0x65, WireWrite 0x80, WireWrite 0x10, WireWrite 0x42,
          WireWrite 0x94, WireEndTransmission]
   \<and> [spec_C1 0 0 (of_nat (spec_divisorExponent 4125)) 0,
       spec_C0 0 0 0 2 0 (of_nat (spec_divisorExponent 4125)),
       spec_FM 1 (of_nat (2 ^ spec_divisorExponent 4125 * 4125 div 25)),
       spec_FL (of_nat (2 ^ spec_divisorExponent 4125 * 4125 div 25))
         (of_nat (spec_divisorExponent 4125))]
       = [0x80, 0x10, 0x54, 0xA3]"
proof -
  let ?q = "(power_on saved_4125_eeprom)
              \<lparr>currentSettings :=
                 \<lparr>testPatternEnable = 1, standard = 2, frequencyTimes100 = 4125\<rparr>\<rparr>"
  have run: "sketch_setup False (power_on saved_4125_eeprom) = writeConfig ?q"
    by (simp add: sketch_setup_def load_saved_4125)
  have q: "currentSettings ?q = \<lparr>testPatternEnable = 1, standard = 2, frequencyTimes100 = 4125\<rparr>"
    "frequencyDivisor ?q = 0" "wire_calls ?q = []"
    by (simp_all add: power_on_def wire_calls_def)
  have fb: "frequencyBits ?q 4125 = 165"
    by (simp add: frequencyBits_def frequencyDivisorPow_def q(2))
  have sent: "spec_C1 0 0 0 0 = 0x80" "spec_C0 0 0 0 2 0 0 = 0x10" "spec_FM 1 165 = 0x42"
    "spec_FL 165 0 = 0x94"
    by (simp_all add: spec_C1_def spec_C0_def spec_FM_def spec_FL_def)
  have e: "spec_divisorExponent 4125 = 3"
    by (simp add: spec_divisorExponent_def)
  have claimed: "spec_C1 0 0 3 0 = 0x80" "spec_C0 0 0 0 2 0 3 = 0x10" "spec_FM 1 1320 = 0x54"
    "spec_FL 1320 3 = 0xA3"
    by (simp_all add: spec_C1_def spec_C0_def spec_FM_def spec_FL_def)
  have wire: "wire_calls (writeConfig ?q)
       = [WireBeginTransmission 0x65, WireWrite 0x80, WireWrite 0x10, WireWrite 0x42,
          WireWrite 0x94, WireEndTransmission]"
    unfolding writeConfig_wire_calls q by (simp add: fb sent)
  show ?thesis
    unfolding run writeConfig_globals q e
    using saved_4125_bytes wire by (simp add: claimed)
qed

end
